theory Spec2Isabelle
  imports Main "HOL-Library.Word" "HOL-Library.Sublist"
begin

section \<open>ImageFeed: data model\<close>

text \<open>
  The service of \<^verbatim>\<open>main.py\<close> keeps two tables (\<^verbatim>\<open>feeds\<close>, \<^verbatim>\<open>images\<close>) and writes
  uploaded files below the working directory. A \<^verbatim>\<open>uuid.UUID\<close> is a 128-bit integer; a
  \<^verbatim>\<open>datetime\<close> is counted in microseconds since \<^verbatim>\<open>datetime.min\<close>; file contents are
  byte strings, and a text is the list of the bytes of its UTF-8 encoding. The two columns called \<^verbatim>\<open>id\<close>, and the other columns, carry the name of
  their table as a prefix, since a record field is a constant of the theory.

  The model covers one request at a time, with PostgreSQL as the database and a Linux
  filesystem. It leaves out a lost connection to the database, and the errors of the
  filesystem that come from permissions, quotas and symbolic links.
\<close>

type_synonym uuid = "128 word"
type_synonym datetime = nat
type_synonym bytes = "8 word list"

record Feed =
  Feed_id :: uuid
  Feed_name :: string
  Feed_description :: "string option"
  Feed_created_at :: datetime

record Image =
  Image_id :: uuid
  Image_feed_id :: uuid
  Image_filename :: string
  Image_path :: string
  Image_created_at :: datetime

record FeedCreate =
  FeedCreate_name :: string
  FeedCreate_description :: "string option"

record FeedResponse =
  FeedResponse_id :: uuid
  FeedResponse_name :: string
  FeedResponse_description :: "string option"
  FeedResponse_created_at :: datetime

record UploadFile =
  filename :: string
  content :: bytes

text \<open>
  What a handler can raise: the \<^verbatim>\<open>HTTPException\<close> of the source with its status and
  detail, the rejection of a request body by the \<^verbatim>\<open>FeedCreate\<close> schema, the
  \<^verbatim>\<open>ValueError\<close> of \<^verbatim>\<open>open\<close> for a name with a null byte, the \<^verbatim>\<open>OSError\<close>s of
  \<^verbatim>\<open>os.makedirs\<close> and \<^verbatim>\<open>open\<close> (\<open>FileNameTooLong\<close> is the one with \<^verbatim>\<open>ENAMETOOLONG\<close>), and
  the two failures of \<^verbatim>\<open>db.commit()\<close>: a text that the database cannot store
  (\<^verbatim>\<open>StatementError\<close>) and the violation of a primary key (\<^verbatim>\<open>IntegrityError\<close>). Only
  the first is answered with its own status; the others end the request with status 500.
\<close>

datatype error =
    HTTPException nat string
  | RequestValidationError
  | ValueError
  | FileNotFoundError
  | FileExistsError
  | NotADirectoryError
  | IsADirectoryError
  | FileNameTooLong
  | StatementError
  | IntegrityError

subsection \<open>The filesystem\<close>

text \<open>
  A filesystem without symbolic links: every resolved location (the list of directory
  names from the root) holds a directory, a file with its content, or nothing.
\<close>

datatype node = Dir | File bytes

type_synonym path = "string list"
type_synonym filesystem = "path \<Rightarrow> node option"

record world =
  feeds :: "Feed list"
  images :: "Image list"
  files :: filesystem
  cwd :: path

text \<open>
  The pieces of a path name between its slashes. Path resolution skips the empty
  pieces, so that the components of a name are the others; a name that ends with a
  slash demands a directory.
\<close>

fun split_on :: "char \<Rightarrow> string \<Rightarrow> string list" where
  "split_on c [] = [[]]"
| "split_on c (x # xs) =
     (if x = c then [] # split_on c xs
      else (case split_on c xs of [] \<Rightarrow> [[x]] | u # us \<Rightarrow> (x # u) # us))"

definition components :: "string \<Rightarrow> string list" where
  "components name = filter (\<lambda>c. c \<noteq> []) (split_on CHR ''/'' name)"

definition trailing_slash :: "string \<Rightarrow> bool" where
  "trailing_slash name \<longleftrightarrow> name \<noteq> [] \<and> last name = CHR ''/''"

text \<open>
  The limits of Linux: a component has at most 255 bytes, and a path name fewer than
  4096.
\<close>

definition NAME_MAX :: nat where
  "NAME_MAX = 255"

definition PATH_MAX :: nat where
  "PATH_MAX = 4096"

text \<open>
  One step of path resolution: \<^verbatim>\<open>.\<close> stays, \<^verbatim>\<open>..\<close> goes to the parent (the root is its
  own parent), a name goes down.
\<close>

definition enter :: "path \<Rightarrow> string \<Rightarrow> path" where
  "enter cur c = (if c = ''.'' then cur else if c = ''..'' then butlast cur else cur @ [c])"

text \<open>
  Resolution of the directory part of a name: every component is looked up in the
  directory reached so far and must be a directory.
\<close>

fun walk :: "filesystem \<Rightarrow> path \<Rightarrow> string list \<Rightarrow> error + path" where
  "walk fs cur [] = Inr cur"
| "walk fs cur (c # cs) =
     (if NAME_MAX < length c then Inl FileNameTooLong
      else (case fs (enter cur c) of
              None \<Rightarrow> Inl FileNotFoundError
            | Some (File b) \<Rightarrow> Inl NotADirectoryError
            | Some Dir \<Rightarrow> walk fs (enter cur c) cs))"

definition start_dir :: "string \<Rightarrow> path \<Rightarrow> path" where
  "start_dir name cur = (case name of [] \<Rightarrow> cur | x # xs \<Rightarrow> if x = CHR ''/'' then [] else cur)"

text \<open>
  \<^verbatim>\<open>with open(name, "wb") as buffer: buffer.write(data)\<close>. Python refuses a name with
  a null byte before it asks the system. The system refuses an empty or too long name,
  resolves the directory part, and then creates or truncates the file, whose content
  the data become. With \<^verbatim>\<open>O_CREAT\<close>, a name that denotes a directory (the root, \<^verbatim>\<open>.\<close>, \<^verbatim>\<open>..\<close>,
  a name with a slash at its end, an existing directory) is refused as a directory.
\<close>

definition open_wb :: "string \<Rightarrow> bytes \<Rightarrow> path \<Rightarrow> filesystem \<Rightarrow> error + filesystem" where
  "open_wb name data cur fs =
     (if CHR 0x00 \<in> set name then Inl ValueError
      else if name = [] then Inl FileNotFoundError
      else if PATH_MAX \<le> length name then Inl FileNameTooLong
      else if components name = [] then Inl IsADirectoryError
      else (case walk fs (start_dir name cur) (butlast (components name)) of
              Inl e \<Rightarrow> Inl e
            | Inr d \<Rightarrow>
                (let c = last (components name)
                 in if c = ''.'' \<or> c = ''..'' \<or> trailing_slash name then Inl IsADirectoryError
                    else if NAME_MAX < length c then Inl FileNameTooLong
                    else (case fs (d @ [c]) of
                            Some Dir \<Rightarrow> Inl IsADirectoryError
                          | Some (File b) \<Rightarrow> Inr (fs(d @ [c] \<mapsto> File data))
                          | None \<Rightarrow> Inr (fs(d @ [c] \<mapsto> File data))))))"

text \<open>The names that \<^verbatim>\<open>open\<close> accepts for writing, whatever the filesystem holds.\<close>

definition creatable :: "string \<Rightarrow> bool" where
  "creatable name \<longleftrightarrow>
     CHR 0x00 \<notin> set name \<and> name \<noteq> [] \<and> length name < PATH_MAX \<and> components name \<noteq> [] \<and>
     last (components name) \<noteq> ''.'' \<and> last (components name) \<noteq> ''..'' \<and>
     \<not> trailing_slash name \<and> length (last (components name)) \<le> NAME_MAX"

text \<open>
  \<^verbatim>\<open>open(name, "rb").read()\<close>. No handler reads a file back; this is the observation
  of what is retrievable at a path name.
\<close>

definition read_file :: "string \<Rightarrow> path \<Rightarrow> filesystem \<Rightarrow> error + bytes" where
  "read_file name cur fs =
     (if CHR 0x00 \<in> set name then Inl ValueError
      else if name = [] then Inl FileNotFoundError
      else if PATH_MAX \<le> length name then Inl FileNameTooLong
      else if components name = [] then Inl IsADirectoryError
      else (case walk fs (start_dir name cur) (butlast (components name)) of
              Inl e \<Rightarrow> Inl e
            | Inr d \<Rightarrow>
                (let c = last (components name)
                 in if c = ''.'' \<or> c = ''..'' then Inl IsADirectoryError
                    else if NAME_MAX < length c then Inl FileNameTooLong
                    else (case fs (d @ [c]) of
                            None \<Rightarrow> Inl FileNotFoundError
                          | Some Dir \<Rightarrow> Inl IsADirectoryError
                          | Some (File b) \<Rightarrow>
                              if trailing_slash name then Inl NotADirectoryError else Inr b))))"

text \<open>\<^verbatim>\<open>os.mkdir\<close>: the parent must be a directory and the location free.\<close>

definition mkdir :: "path \<Rightarrow> filesystem \<Rightarrow> error + filesystem" where
  "mkdir p fs =
     (case fs (butlast p) of
        None \<Rightarrow> Inl FileNotFoundError
      | Some (File b) \<Rightarrow> Inl NotADirectoryError
      | Some Dir \<Rightarrow> (case fs p of None \<Rightarrow> Inr (fs(p \<mapsto> Dir)) | Some n \<Rightarrow> Inl FileExistsError))"

text \<open>
  \<^verbatim>\<open>os.makedirs(name, exist_ok=True)\<close> for a relative name whose components are plain
  short names without a null byte, as \<^verbatim>\<open>uploads/{feed_id}\<close> is. The library function recurses on the head of the
  name when the head does not exist (ignoring a \<^verbatim>\<open>FileExistsError\<close> of that call), then
  makes the directory, and forgives the failure of \<^verbatim>\<open>mkdir\<close> when the name is a
  directory already. The components are given last first; the filesystem is returned
  also when an error is raised, since the directories made so far stay.
\<close>

fun makedirs_rev :: "path \<Rightarrow> string list \<Rightarrow> filesystem \<Rightarrow> error option \<times> filesystem" where
  "makedirs_rev cur [] fs = (Some FileNotFoundError, fs)"
| "makedirs_rev cur (tail # rhead) fs =
     (case (if rhead \<noteq> [] \<and> fs (cur @ rev rhead) = None then makedirs_rev cur rhead fs
            else (None, fs)) of
        (e, fs1) \<Rightarrow>
          if e \<noteq> None \<and> e \<noteq> Some FileExistsError then (e, fs1)
          else (case mkdir (cur @ rev rhead @ [tail]) fs1 of
                  Inr fs2 \<Rightarrow> (None, fs2)
                | Inl err \<Rightarrow>
                    if fs1 (cur @ rev rhead @ [tail]) = Some Dir then (None, fs1)
                    else (Some err, fs1)))"

definition makedirs :: "string \<Rightarrow> path \<Rightarrow> filesystem \<Rightarrow> error option \<times> filesystem" where
  "makedirs name cur fs = makedirs_rev cur (rev (split_on CHR ''/'' name)) fs"

subsection \<open>Text of an identifier\<close>

text \<open>
  \<^verbatim>\<open>str(u)\<close> of a \<^verbatim>\<open>uuid.UUID\<close> formats the integer as 32 lower-case hexadecimal digits
  (\<^verbatim>\<open>'%032x' % self.int\<close>) and joins the groups of 8, 4, 4, 4 and 12 digits with hyphens.
\<close>

definition hex_digit :: "nat \<Rightarrow> char" where
  "hex_digit d = (if d < 10 then char_of (48 + d) else char_of (87 + d))"

fun hex_pad :: "nat \<Rightarrow> nat \<Rightarrow> string" where
  "hex_pad 0 n = []"
| "hex_pad (Suc k) n = hex_pad k (n div 16) @ [hex_digit (n mod 16)]"

definition uuid_str :: "uuid \<Rightarrow> string" where
  "uuid_str u =
     (let h = hex_pad 32 (unat u)
      in take 8 h @ ''-'' @ take 4 (drop 8 h) @ ''-'' @ take 4 (drop 12 h) @ ''-'' @
         take 4 (drop 16 h) @ ''-'' @ drop 20 h)"

section \<open>Handlers\<close>

text \<open>
  \<^verbatim>\<open>db.query(Feed).filter(Feed.id == feed_id).first()\<close>: the first row of the table with
  that identifier, or \<^verbatim>\<open>None\<close>.
\<close>

definition query_feed :: "uuid \<Rightarrow> world \<Rightarrow> Feed option" where
  "query_feed feed_id w = find (\<lambda>f. Feed_id f = feed_id) (feeds w)"

definition to_FeedResponse :: "Feed \<Rightarrow> FeedResponse" where
  "to_FeedResponse f =
     \<lparr>FeedResponse_id = Feed_id f, FeedResponse_name = Feed_name f,
      FeedResponse_description = Feed_description f,
      FeedResponse_created_at = Feed_created_at f\<rparr>"

definition get_feed :: "uuid \<Rightarrow> world \<Rightarrow> error + FeedResponse" where
  "get_feed feed_id w =
     (case query_feed feed_id w of
        None \<Rightarrow> Inl (HTTPException 404 ''Feed not found'')
      | Some feed \<Rightarrow> Inr (to_FeedResponse feed))"

text \<open>
  \<^verbatim>\<open>create_feed\<close>. The identifier and the timestamp of the new row are the column defaults
  \<^verbatim>\<open>uuid.uuid4\<close> and \<^verbatim>\<open>datetime.utcnow\<close>; what they return when the row is inserted is
  given as \<open>new_id\<close> and \<open>now\<close>. \<^verbatim>\<open>db.commit()\<close> sends the row to the database. It raises
  when a text of the row has the character U+0000, which a text column of PostgreSQL
  cannot hold, and, the column \<^verbatim>\<open>id\<close> being the primary key, when the table has a row
  with that identifier already. Nothing is stored then.
\<close>

definition storable :: "string \<Rightarrow> bool" where
  "storable t \<longleftrightarrow> CHR 0x00 \<notin> set t"

definition storable_opt :: "string option \<Rightarrow> bool" where
  "storable_opt t = (case t of None \<Rightarrow> True | Some d \<Rightarrow> storable d)"

definition create_feed ::
  "FeedCreate \<Rightarrow> uuid \<Rightarrow> datetime \<Rightarrow> world \<Rightarrow> (error + FeedResponse) \<times> world" where
  "create_feed feed new_id now w =
     (let db_feed = \<lparr>Feed_id = new_id, Feed_name = FeedCreate_name feed,
                      Feed_description = FeedCreate_description feed, Feed_created_at = now\<rparr>
      in if \<not> (storable (Feed_name db_feed) \<and> storable_opt (Feed_description db_feed))
         then (Inl StatementError, w)
         else if new_id \<in> set (map Feed_id (feeds w)) then (Inl IntegrityError, w)
         else (Inr (to_FeedResponse db_feed), w\<lparr>feeds := feeds w @ [db_feed]\<rparr>))"

text \<open>
  The body of \<^verbatim>\<open>POST /api/v1/feeds\<close> is checked against the schema \<^verbatim>\<open>FeedCreate\<close> before
  the handler runs: \<^verbatim>\<open>name: str\<close> has no default, so it must be present and a text;
  \<^verbatim>\<open>description: Optional[str] = None\<close> may be absent or null. A key of the body is
  absent, null, a text, or another JSON value.
\<close>

datatype json_field = Missing | Null | Text string | Other

definition validate_FeedCreate :: "json_field \<Rightarrow> json_field \<Rightarrow> error + FeedCreate" where
  "validate_FeedCreate name description =
     (case name of
        Text n \<Rightarrow>
          (case description of
             Missing \<Rightarrow> Inr \<lparr>FeedCreate_name = n, FeedCreate_description = None\<rparr>
           | Null \<Rightarrow> Inr \<lparr>FeedCreate_name = n, FeedCreate_description = None\<rparr>
           | Text d \<Rightarrow> Inr \<lparr>FeedCreate_name = n, FeedCreate_description = Some d\<rparr>
           | Other \<Rightarrow> Inl RequestValidationError)
      | _ \<Rightarrow> Inl RequestValidationError)"

text \<open>
  \<^verbatim>\<open>upload_image\<close>. Its two local names are functions of what they are computed from:
  \<^verbatim>\<open>upload_dir = f"uploads/{feed_id}"\<close> and \<^verbatim>\<open>file_path = f"{upload_dir}/{file.filename}"\<close>.
  The response is the dictionary of the source as the list of its items. \<open>new_id\<close> and
  \<open>now\<close> are the column defaults of the new \<^verbatim>\<open>Image\<close> row. The file is written before
  the row is committed, and a directory or a file that was made stays when a later step
  raises. The commit fails as that of \<^verbatim>\<open>create_feed\<close> does.
\<close>

definition upload_dir :: "uuid \<Rightarrow> string" where
  "upload_dir feed_id = ''uploads/'' @ uuid_str feed_id"

definition file_path :: "uuid \<Rightarrow> string \<Rightarrow> string" where
  "file_path feed_id name = upload_dir feed_id @ ''/'' @ name"

definition upload_image ::
  "uuid \<Rightarrow> UploadFile \<Rightarrow> uuid \<Rightarrow> datetime \<Rightarrow> world \<Rightarrow> (error + (string \<times> string) list) \<times> world" where
  "upload_image feed_id file new_id now w =
     (case query_feed feed_id w of
        None \<Rightarrow> (Inl (HTTPException 404 ''Feed not found''), w)
      | Some feed \<Rightarrow>
          (case makedirs (upload_dir feed_id) (cwd w) (files w) of
             (Some e, fs1) \<Rightarrow> (Inl e, w\<lparr>files := fs1\<rparr>)
           | (None, fs1) \<Rightarrow>
               (case open_wb (file_path feed_id (filename file)) (content file) (cwd w) fs1 of
                  Inl e \<Rightarrow> (Inl e, w\<lparr>files := fs1\<rparr>)
                | Inr fs2 \<Rightarrow>
                    (let db_image = \<lparr>Image_id = new_id, Image_feed_id = feed_id,
                                      Image_filename = filename file,
                                      Image_path = file_path feed_id (filename file),
                                      Image_created_at = now\<rparr>
                     in if \<not> (storable (Image_filename db_image) \<and>
                              storable (Image_path db_image))
                        then (Inl StatementError, w\<lparr>files := fs2\<rparr>)
                        else if new_id \<in> set (map Image_id (images w))
                        then (Inl IntegrityError, w\<lparr>files := fs2\<rparr>)
                        else (Inr [(''message'', ''Image uploaded successfully''),
                                   (''image_id'', uuid_str new_id)],
                              w\<lparr>files := fs2, images := images w @ [db_image]\<rparr>)))))"

definition list_images :: "uuid \<Rightarrow> world \<Rightarrow> (string \<times> string) list list" where
  "list_images feed_id w =
     map (\<lambda>img. [(''id'', uuid_str (Image_id img)), (''filename'', Image_filename img)])
       (filter (\<lambda>img. Image_feed_id img = feed_id) (images w))"

subsection \<open>The routes\<close>

text \<open>
  A request names its route and carries its parameters. A request that inserts a row
  also carries what the environment gives while it is handled: the identifier that
  \<^verbatim>\<open>uuid.uuid4\<close> returns, the time \<open>received_at\<close> that the clock of the server shows when
  the request arrives, and the time \<open>elapsed\<close> that passes from then until the row is
  inserted. \<^verbatim>\<open>datetime.utcnow\<close> returns what the clock shows at that moment; the clock
  is taken not to be set back while a request is handled. The store starts with both
  tables empty; its states are those that a sequence of requests leads to.
\<close>

datatype request =
    PostFeeds json_field json_field uuid datetime nat
  | GetFeed uuid
  | PostImages uuid UploadFile uuid datetime nat
  | GetImages uuid

definition utcnow :: "datetime \<Rightarrow> nat \<Rightarrow> datetime" where
  "utcnow received_at elapsed = received_at + elapsed"

datatype response =
    FeedJSON FeedResponse
  | UploadJSON "(string \<times> string) list"
  | ImagesJSON "(string \<times> string) list list"

fun handle :: "request \<Rightarrow> world \<Rightarrow> (error + response) \<times> world" where
  "handle (PostFeeds name description new_id received_at elapsed) w =
     (case validate_FeedCreate name description of
        Inl e \<Rightarrow> (Inl e, w)
      | Inr feed \<Rightarrow>
          (case create_feed feed new_id (utcnow received_at elapsed) w of
             (r, w') \<Rightarrow> (map_sum id FeedJSON r, w')))"
| "handle (GetFeed feed_id) w = (map_sum id FeedJSON (get_feed feed_id w), w)"
| "handle (PostImages feed_id file new_id received_at elapsed) w =
     (case upload_image feed_id file new_id (utcnow received_at elapsed) w of
        (r, w') \<Rightarrow> (map_sum id UploadJSON r, w'))"
| "handle (GetImages feed_id) w = (Inr (ImagesJSON (list_images feed_id w)), w)"

fun run :: "request list \<Rightarrow> world \<Rightarrow> world" where
  "run [] w = w"
| "run (r # rs) w = run rs (snd (handle r w))"

definition initial :: "filesystem \<Rightarrow> path \<Rightarrow> world" where
  "initial fs0 cwd0 = \<lparr>feeds = [], images = [], files = fs0, cwd = cwd0\<rparr>"

subsection \<open>A small store\<close>

text \<open>
  Concrete states on which the statements below are evaluated: the service runs in
  \<^verbatim>\<open>/srv\<close>, which is empty at first; then a feed is created, a file is uploaded to it, and
  a second feed is created.
\<close>

definition example_fs :: filesystem where
  "example_fs = [[] \<mapsto> Dir, [''srv''] \<mapsto> Dir]"

definition empty_store :: world where
  "empty_store = initial example_fs [''srv'']"

definition vacation_store :: world where
  "vacation_store =
     \<lparr>feeds = [\<lparr>Feed_id = 7, Feed_name = ''Vacation'', Feed_description = None,
                 Feed_created_at = 100\<rparr>],
      images = [], files = example_fs, cwd = [''srv'']\<rparr>"

definition cat_store :: world where
  "cat_store =
     vacation_store
       \<lparr>files := example_fs
          ([''srv'', ''uploads''] \<mapsto> Dir,
           [''srv'', ''uploads'', ''00000000-0000-0000-0000-000000000007''] \<mapsto> Dir,
           [''srv'', ''uploads'', ''00000000-0000-0000-0000-000000000007'', ''cat.png''] \<mapsto>
             File [1, 2, 3]),
        images := [\<lparr>Image_id = 9, Image_feed_id = 7, Image_filename = ''cat.png'',
                     Image_path = ''uploads/00000000-0000-0000-0000-000000000007/cat.png'',
                     Image_created_at = 200\<rparr>]\<rparr>"

definition alps_store :: world where
  "alps_store =
     cat_store
       \<lparr>feeds := feeds cat_store @
          [\<lparr>Feed_id = 8, Feed_name = ''Alps'', Feed_description = Some ''2024'',
            Feed_created_at = 250\<rparr>]\<rparr>"

subsection \<open>Storage in which the directory of a feed can be made\<close>

text \<open>
  \<^verbatim>\<open>os.makedirs\<close> succeeds when the working directory is a directory and each of
  \<^verbatim>\<open>uploads\<close> and \<^verbatim>\<open>uploads/{feed_id}\<close> is a directory or does not exist yet.
\<close>

definition storage_ready :: "world \<Rightarrow> uuid \<Rightarrow> bool" where
  "storage_ready w feed_id \<longleftrightarrow>
     files w (cwd w) = Some Dir \<and>
     (files w (cwd w @ [''uploads'']) = None \<or> files w (cwd w @ [''uploads'']) = Some Dir) \<and>
     (files w (cwd w @ [''uploads'', uuid_str feed_id]) = None \<or>
      files w (cwd w @ [''uploads'', uuid_str feed_id]) = Some Dir)"

section \<open>Properties of the model\<close>

subsection \<open>Auxiliary facts\<close>

lemma query_feed_None: "query_feed feed_id w = None \<longleftrightarrow> feed_id \<notin> set (map Feed_id (feeds w))"
  by (auto simp: query_feed_def find_None_iff)

lemma query_feed_Some: "query_feed feed_id w = Some f \<Longrightarrow> f \<in> set (feeds w) \<and> Feed_id f = feed_id"
  by (auto simp: query_feed_def find_Some_iff)

lemma split_on_not_Nil: "split_on c s \<noteq> []"
  by (induction s) (auto split: list.splits)

lemma split_on_append: "split_on c (a @ c # b) = split_on c a @ split_on c b"
  by (induction a) (auto split: list.splits simp: split_on_not_Nil)

lemma split_on_plain: "c \<notin> set s \<Longrightarrow> split_on c s = [s]"
  by (induction s) auto

lemma of_char_hex_digit: "d < 16 \<Longrightarrow> (of_char (hex_digit d) :: nat) = (if d < 10 then 48 + d else 87 + d)"
  by (simp add: hex_digit_def)

lemma hex_digit_inj:
  assumes "d < 16" "e < 16" "hex_digit d = hex_digit e"
  shows "d = e"
proof -
  have "(of_char (hex_digit d) :: nat) = of_char (hex_digit e)"
    by (simp only: assms(3))
  then have "(if d < 10 then 48 + d else 87 + d) = (if e < 10 then 48 + e else 87 + e)"
    by (simp only: of_char_hex_digit [OF assms(1)] of_char_hex_digit [OF assms(2)])
  then show ?thesis
    by (cases "d < 10"; cases "e < 10") (use assms(1,2) in simp_all)
qed

lemma hex_digit_not_sep:
  assumes "d < 16"
  shows "hex_digit d \<noteq> CHR ''/'' \<and> hex_digit d \<noteq> CHR ''-'' \<and> hex_digit d \<noteq> CHR 0x00"
proof -
  have a: "(of_char (hex_digit d) :: nat) = (if d < 10 then 48 + d else 87 + d)"
    by (rule of_char_hex_digit [OF assms])
  have b: "(of_char CHR ''/'' :: nat) = 47" "(of_char CHR ''-'' :: nat) = 45"
    "(of_char CHR 0x00 :: nat) = 0"
    by simp_all
  have "(of_char (hex_digit d) :: nat) \<noteq> 47 \<and> (of_char (hex_digit d) :: nat) \<noteq> 45 \<and>
      (of_char (hex_digit d) :: nat) \<noteq> 0"
    unfolding a by (cases "d < 10") simp_all
  with b show ?thesis by metis
qed

lemma length_hex_pad: "length (hex_pad k n) = k"
  by (induction k arbitrary: n) auto

lemma set_hex_pad:
  "x \<in> set (hex_pad k n) \<Longrightarrow> x \<noteq> CHR ''/'' \<and> x \<noteq> CHR ''-'' \<and> x \<noteq> CHR 0x00"
proof (induction k arbitrary: n)
  case 0
  then show ?case by simp
next
  case (Suc k)
  have "n mod 16 < 16" by simp
  from hex_digit_not_sep [OF this] Suc show ?case by auto
qed

lemma hex_pad_inj: "n < 16 ^ k \<Longrightarrow> m < 16 ^ k \<Longrightarrow> hex_pad k n = hex_pad k m \<Longrightarrow> n = m"
proof (induction k arbitrary: n m)
  case 0
  then show ?case by simp
next
  case (Suc k)
  from Suc.prems(3) have eq: "hex_pad k (n div 16) = hex_pad k (m div 16)"
    and dg: "hex_digit (n mod 16) = hex_digit (m mod 16)"
    by (simp_all add: length_hex_pad)
  from Suc.prems(1,2) have "n div 16 < 16 ^ k" "m div 16 < 16 ^ k"
    by (simp_all add: less_mult_imp_div_less)
  with eq have d: "n div 16 = m div 16" by (rule Suc.IH [rotated 2])
  have "n mod 16 = m mod 16" by (rule hex_digit_inj [OF _ _ dg]) simp_all
  with d show ?case by (metis div_mult_mod_eq)
qed


lemma uuid_str_no_slash: "CHR ''/'' \<notin> set (uuid_str u)"
  by (auto simp: uuid_str_def Let_def dest!: in_set_takeD in_set_dropD dest: set_hex_pad)

lemma uuid_str_no_nul: "CHR 0x00 \<notin> set (uuid_str u)"
  by (auto simp: uuid_str_def Let_def dest!: in_set_takeD in_set_dropD dest: set_hex_pad)

lemma length_uuid_str: "length (uuid_str u) = 36"
  by (simp add: uuid_str_def Let_def length_hex_pad)

lemma uuid_str_plain: "uuid_str u \<noteq> [] \<and> uuid_str u \<noteq> ''.'' \<and> uuid_str u \<noteq> ''..''"
  using length_uuid_str [of u] by auto

lemma regroup: "take 8 h @ take 4 (drop 8 h) @ take 4 (drop 12 h) @ take 4 (drop 16 h) @ drop 20 h = h"
proof -
  have a: "take 4 (drop 16 h) @ drop 20 h = drop 16 h"
    using append_take_drop_id [of 4 "drop 16 h"] by simp
  have b: "take 4 (drop 12 h) @ drop 16 h = drop 12 h"
    using append_take_drop_id [of 4 "drop 12 h"] by simp
  have c: "take 4 (drop 8 h) @ drop 12 h = drop 8 h"
    using append_take_drop_id [of 4 "drop 8 h"] by simp
  show ?thesis by (simp only: a b c append_take_drop_id)
qed

lemma filter_uuid_str: "filter (\<lambda>x. x \<noteq> CHR ''-'') (uuid_str u) = hex_pad 32 (unat u)"
proof -
  define h where "h = hex_pad 32 (unat u)"
  have keep: "filter (\<lambda>x. x \<noteq> CHR ''-'') xs = xs" if "set xs \<subseteq> set h" for xs
    using that set_hex_pad [of _ 32 "unat u"] unfolding h_def
    by (intro filter_True) blast
  have "filter (\<lambda>x. x \<noteq> CHR ''-'') (uuid_str u) =
      take 8 h @ take 4 (drop 8 h) @ take 4 (drop 12 h) @ take 4 (drop 16 h) @ drop 20 h"
    unfolding uuid_str_def Let_def h_def [symmetric]
    by (simp add: keep set_take_subset set_drop_subset
        subset_trans [OF set_take_subset set_drop_subset])
  then show ?thesis by (simp only: regroup h_def)
qed

lemma uuid_str_inj: "uuid_str a = uuid_str b \<Longrightarrow> a = b"
proof -
  assume "uuid_str a = uuid_str b"
  then have "hex_pad 32 (unat a) = hex_pad 32 (unat b)"
    by (simp only: filter_uuid_str [symmetric])
  moreover have "unat a < 16 ^ 32" "unat b < 16 ^ 32"
    using unsigned_less [of a, where ?'a = nat] unsigned_less [of b, where ?'a = nat]
    by simp_all
  ultimately have "unat a = unat b" by (rule hex_pad_inj [rotated 2])
  then show ?thesis by (simp only: word_unat_eq_iff)
qed


lemma enter_plain: "c \<noteq> ''.'' \<Longrightarrow> c \<noteq> ''..'' \<Longrightarrow> enter cur c = cur @ [c]"
  by (simp add: enter_def)

lemma enter_uuid_str: "enter cur (uuid_str u) = cur @ [uuid_str u]"
  using uuid_str_plain [of u] by (simp add: enter_plain)

lemma enter_uploads: "enter cur ''uploads'' = cur @ [''uploads'']"
  by (simp add: enter_def)

lemma walk_append:
  "walk fs cur (a @ b) = (case walk fs cur a of Inl e \<Rightarrow> Inl e | Inr d \<Rightarrow> walk fs d b)"
  by (induction a arbitrary: cur) (auto split: option.splits node.splits)

lemma walk_write:
  "walk fs cur cs = Inr d \<Longrightarrow> fs p \<noteq> Some Dir \<Longrightarrow> walk (fs(p \<mapsto> File c)) cur cs = Inr d"
  by (induction cs arbitrary: cur) (auto split: option.splits node.splits if_splits)

lemma walk_upload_dir:
  "walk fs cur [''uploads'', uuid_str u] = Inr d \<longleftrightarrow>
     d = cur @ [''uploads'', uuid_str u] \<and> fs (cur @ [''uploads'']) = Some Dir \<and>
     fs (cur @ [''uploads'', uuid_str u]) = Some Dir"
  by (auto simp: enter_uuid_str enter_uploads NAME_MAX_def length_uuid_str
      split: option.splits node.splits)

lemma split_upload_dir: "split_on CHR ''/'' (upload_dir u) = [''uploads'', uuid_str u]"
proof -
  have "upload_dir u = ''uploads'' @ CHR ''/'' # uuid_str u" by (simp add: upload_dir_def)
  then have "split_on CHR ''/'' (upload_dir u) =
      split_on CHR ''/'' ''uploads'' @ split_on CHR ''/'' (uuid_str u)"
    by (simp only: split_on_append)
  moreover have "split_on CHR ''/'' ''uploads'' = [''uploads'']" by simp
  moreover have "split_on CHR ''/'' (uuid_str u) = [uuid_str u]"
    by (rule split_on_plain [OF uuid_str_no_slash])
  ultimately show ?thesis by simp
qed

lemma split_file_path:
  "split_on CHR ''/'' (file_path u name) = [''uploads'', uuid_str u] @ split_on CHR ''/'' name"
proof -
  have "file_path u name = upload_dir u @ CHR ''/'' # name" by (simp add: file_path_def)
  then show ?thesis by (simp only: split_on_append split_upload_dir)
qed

lemma components_file_path:
  "components (file_path u name) = [''uploads'', uuid_str u] @ components name"
  using uuid_str_plain [of u] by (simp add: components_def split_file_path)

lemma components_plain:
  "CHR ''/'' \<notin> set name \<Longrightarrow> name \<noteq> [] \<Longrightarrow> components name = [name]"
  by (simp add: components_def split_on_plain)

lemma components_Nil: "components s = [] \<Longrightarrow> s = [] \<or> last s = CHR ''/''"
proof (induction s)
  case Nil
  then show ?case by simp
next
  case (Cons x xs)
  show ?case
  proof (cases "x = CHR ''/''")
    case True
    with Cons.prems have "components xs = []" by (simp add: components_def)
    with Cons.IH True show ?thesis by auto
  next
    case False
    with Cons.prems show ?thesis
      by (auto simp: components_def split: list.splits)
  qed
qed

lemma start_dir_file_path: "start_dir (file_path u name) cur = cur"
  by (simp add: start_dir_def file_path_def upload_dir_def)

lemma file_path_not_Nil: "file_path u name \<noteq> []"
  by (simp add: file_path_def upload_dir_def)

lemma trailing_slash_file_path:
  "trailing_slash (file_path u name) \<longleftrightarrow> name = [] \<or> last name = CHR ''/''"
  by (simp add: trailing_slash_def file_path_def upload_dir_def)

lemma length_file_path: "length (file_path u name) = 45 + length name"
  by (simp add: file_path_def upload_dir_def length_uuid_str)

lemma nul_file_path: "CHR 0x00 \<in> set (file_path u name) \<longleftrightarrow> CHR 0x00 \<in> set name"
  using uuid_str_no_nul [of u] by (auto simp: file_path_def upload_dir_def)

lemma makedirs_present:
  assumes "fs (cur @ [''uploads'']) = Some Dir" "fs (cur @ [''uploads'', uuid_str u]) = Some Dir"
  shows "makedirs (upload_dir u) cur fs = (None, fs)"
  using assms by (simp add: makedirs_def split_upload_dir mkdir_def butlast_append)

lemma makedirs_ready:
  assumes "fs cur = Some Dir"
    and "fs (cur @ [''uploads'']) = None \<or> fs (cur @ [''uploads'']) = Some Dir"
    and "fs (cur @ [''uploads'', uuid_str u]) = None \<or> fs (cur @ [''uploads'', uuid_str u]) = Some Dir"
  shows "makedirs (upload_dir u) cur fs =
           (None, fs(cur @ [''uploads''] \<mapsto> Dir, cur @ [''uploads'', uuid_str u] \<mapsto> Dir))"
proof -
  have triv: "g(p \<mapsto> Dir) = g" if "g p = Some Dir" for g :: filesystem and p
    using that by (rule map_upd_triv)
  show ?thesis
    using assms
    by (auto simp: makedirs_def split_upload_dir mkdir_def butlast_append triv fun_upd_twist)
qed

lemma open_wb_Inr_iff:
  "open_wb name data cur fs = Inr fs' \<longleftrightarrow>
     creatable name \<and>
     (\<exists>d. walk fs (start_dir name cur) (butlast (components name)) = Inr d \<and>
        fs (d @ [last (components name)]) \<noteq> Some Dir \<and>
        fs' = fs(d @ [last (components name)] \<mapsto> File data))"
  by (auto simp: open_wb_def creatable_def Let_def
      split: sum.splits option.splits node.splits)

lemma open_wb_read_file:
  assumes "open_wb name data cur fs = Inr fs'"
  shows "read_file name cur fs' = Inr data"
proof -
  from assms obtain d where c: "creatable name"
    and w: "walk fs (start_dir name cur) (butlast (components name)) = Inr d"
    and n: "fs (d @ [last (components name)]) \<noteq> Some Dir"
    and f: "fs' = fs(d @ [last (components name)] \<mapsto> File data)"
    unfolding open_wb_Inr_iff by blast
  from walk_write [OF w n]
  have "walk fs' (start_dir name cur) (butlast (components name)) = Inr d"
    unfolding f .
  with c show ?thesis by (simp add: read_file_def Let_def creatable_def f)
qed

lemma open_wb_again:
  assumes "open_wb name data cur fs = Inr fs'"
  shows "\<exists>fs''. open_wb name data' cur fs' = Inr fs''"
proof -
  from assms obtain d where c: "creatable name"
    and w: "walk fs (start_dir name cur) (butlast (components name)) = Inr d"
    and n: "fs (d @ [last (components name)]) \<noteq> Some Dir"
    and f: "fs' = fs(d @ [last (components name)] \<mapsto> File data)"
    unfolding open_wb_Inr_iff by blast
  from walk_write [OF w n]
  have w': "walk fs' (start_dir name cur) (butlast (components name)) = Inr d"
    unfolding f .
  with c show ?thesis unfolding open_wb_Inr_iff by (simp add: f)
qed

lemma open_wb_dirs:
  assumes "open_wb name data cur fs = Inr fs'"
  shows "fs' p = Some Dir \<longleftrightarrow> fs p = Some Dir"
  using assms unfolding open_wb_Inr_iff by (auto split: if_splits)

lemma open_wb_nul:
  assumes "open_wb name data cur fs = Inr fs'"
  shows "CHR 0x00 \<notin> set name"
  using assms unfolding open_wb_Inr_iff creatable_def by simp

lemma open_wb_file_path_dirs:
  assumes "open_wb (file_path u name) data cur fs = Inr fs'"
  shows "fs (cur @ [''uploads'']) = Some Dir \<and> fs (cur @ [''uploads'', uuid_str u]) = Some Dir"
proof -
  from assms obtain d where c: "creatable (file_path u name)"
    and w: "walk fs cur (butlast (components (file_path u name))) = Inr d"
    unfolding open_wb_Inr_iff start_dir_file_path by blast
  from c have "\<not> (name = [] \<or> last name = CHR ''/'')"
    by (simp add: creatable_def trailing_slash_file_path)
  with components_Nil [of name] have "components name \<noteq> []" by blast
  then have "butlast (components (file_path u name)) =
      [''uploads'', uuid_str u] @ butlast (components name)"
    by (simp add: components_file_path butlast_append)
  with w obtain d0 where "walk fs cur [''uploads'', uuid_str u] = Inr d0"
    by (simp only: walk_append split: sum.splits)
  then show ?thesis by (simp only: walk_upload_dir)
qed

lemma upload_image_Inr:
  assumes "upload_image feed_id file new_id now w = (Inr r, w')"
  obtains feed fs1 fs2 where "query_feed feed_id w = Some feed"
    and "makedirs (upload_dir feed_id) (cwd w) (files w) = (None, fs1)"
    and "open_wb (file_path feed_id (filename file)) (content file) (cwd w) fs1 = Inr fs2"
    and "new_id \<notin> set (map Image_id (images w))"
    and "storable (filename file)" and "storable (file_path feed_id (filename file))"
    and "r = [(''message'', ''Image uploaded successfully''), (''image_id'', uuid_str new_id)]"
    and "w' = w\<lparr>files := fs2,
                 images := images w @
                   [\<lparr>Image_id = new_id, Image_feed_id = feed_id, Image_filename = filename file,
                     Image_path = file_path feed_id (filename file), Image_created_at = now\<rparr>]\<rparr>"
  using assms
  by (auto simp: upload_image_def Let_def
      split: option.splits prod.splits sum.splits if_splits)

lemma upload_image_feeds: "feeds (snd (upload_image feed_id file new_id now w)) = feeds w"
  by (simp add: upload_image_def Let_def split: option.splits prod.splits sum.splits)

lemma upload_image_images:
  "images (snd (upload_image feed_id file new_id now w)) = images w \<or>
   (feed_id \<in> set (map Feed_id (feeds w)) \<and>
    (\<exists>img. Image_feed_id img = feed_id \<and>
       images (snd (upload_image feed_id file new_id now w)) = images w @ [img]))"
proof (cases "query_feed feed_id w")
  case None
  then show ?thesis by (simp add: upload_image_def)
next
  case (Some feed)
  then have "feed_id \<in> set (map Feed_id (feeds w))"
    using query_feed_None [of feed_id w] by simp
  then show ?thesis
    by (simp add: upload_image_def Let_def Some split: option.splits prod.splits sum.splits)
qed

lemma create_feed_images: "images (snd (create_feed feed new_id now w)) = images w"
  by (simp add: create_feed_def Let_def)

lemma create_feed_feeds: "\<exists>fs. feeds (snd (create_feed feed new_id now w)) = feeds w @ fs"
  by (simp add: create_feed_def Let_def)

lemma handle_feeds: "\<exists>fs. feeds (snd (handle r w)) = feeds w @ fs"
proof (cases r)
  case (PostFeeds name description new_id received_at elapsed)
  then show ?thesis
    using create_feed_feeds by (auto split: sum.splits prod.splits) (metis snd_conv)
next
  case (PostImages feed_id upl new_id received_at elapsed)
  then show ?thesis
    using upload_image_feeds [of feed_id upl new_id "utcnow received_at elapsed" w] by (auto split: prod.splits)
qed simp_all

lemma handle_images:
  "images (snd (handle r w)) = images w \<or>
   (\<exists>img. Image_feed_id img \<in> set (map Feed_id (feeds w)) \<and>
      images (snd (handle r w)) = images w @ [img])"
proof (cases r)
  case (PostFeeds name description new_id received_at elapsed)
  then show ?thesis
    using create_feed_images by (auto split: sum.splits prod.splits) (metis snd_conv)
next
  case (PostImages feed_id upl new_id received_at elapsed)
  then show ?thesis
    using upload_image_images [of feed_id upl new_id "utcnow received_at elapsed" w] by (auto split: prod.splits)
qed simp_all

lemma handle_images_have_feed:
  assumes "\<forall>img\<in>set (images w). Image_feed_id img \<in> set (map Feed_id (feeds w))"
  shows "\<forall>img\<in>set (images (snd (handle r w))).
           Image_feed_id img \<in> set (map Feed_id (feeds (snd (handle r w))))"
proof -
  obtain fs where f: "feeds (snd (handle r w)) = feeds w @ fs"
    using handle_feeds by blast
  from handle_images [of r w] assms show ?thesis
    unfolding f by auto
qed

lemma run_images_have_feed:
  "\<forall>img\<in>set (images w). Image_feed_id img \<in> set (map Feed_id (feeds w)) \<Longrightarrow>
   \<forall>img\<in>set (images (run rs w)). Image_feed_id img \<in> set (map Feed_id (feeds (run rs w)))"
proof (induction rs arbitrary: w)
  case Nil
  then show ?case by simp
next
  case (Cons r rs)
  show ?case
    using Cons.IH [OF handle_images_have_feed [OF Cons.prems]] by simp
qed

lemma run_append: "run (rs @ rs') w = run rs' (run rs w)"
  by (induction rs arbitrary: w) simp_all

lemma run_feeds: "\<exists>fs. feeds (run rs w) = feeds w @ fs"
proof (induction rs arbitrary: w)
  case Nil
  then show ?case by simp
next
  case (Cons r rs)
  obtain fs where "feeds (snd (handle r w)) = feeds w @ fs" using handle_feeds by blast
  moreover obtain fs' where "feeds (run rs (snd (handle r w))) = feeds (snd (handle r w)) @ fs'"
    using Cons.IH by blast
  ultimately show ?case by simp
qed

lemma run_images: "\<exists>imgs. images (run rs w) = images w @ imgs"
proof (induction rs arbitrary: w)
  case Nil
  then show ?case by simp
next
  case (Cons r rs)
  obtain imgs where "images (snd (handle r w)) = images w @ imgs"
    using handle_images [of r w] by auto
  moreover obtain imgs' where
    "images (run rs (snd (handle r w))) = images (snd (handle r w)) @ imgs'"
    using Cons.IH by blast
  ultimately show ?case by simp
qed

lemma vacation_store_reachable:
  "run [PostFeeds (Text ''Vacation'') Missing 7 90 10] empty_store = vacation_store"
  by (simp add: empty_store_def initial_def vacation_store_def validate_FeedCreate_def
      create_feed_def to_FeedResponse_def utcnow_def storable_def storable_opt_def)

subsection \<open>Upload to a feed that does not exist\<close>

text \<open>
  Claim C1. When no row of \<^verbatim>\<open>feeds\<close> has the identifier of the request,
  \<^verbatim>\<open>upload_image\<close> raises the 404 error and leaves the whole state as it was: no
  directory is made, no file is written, and no \<^verbatim>\<open>Image\<close> row is added.
\<close>

theorem upload_image_unknown_feed:
  assumes "feed_id \<notin> set (map Feed_id (feeds w))"
  shows "upload_image feed_id file new_id now w = (Inl (HTTPException 404 ''Feed not found''), w)"
proof -
  from assms have "query_feed feed_id w = None" using query_feed_None by blast
  then show ?thesis by (simp add: upload_image_def)
qed

theorem upload_image_unknown_feed_witness:
  "(8 :: uuid) \<notin> set (map Feed_id (feeds vacation_store)) \<and>
   upload_image 8 \<lparr>filename = ''cat.png'', content = [1, 2, 3]\<rparr> 9 200 vacation_store =
     (Inl (HTTPException 404 ''Feed not found''), vacation_store)"
proof -
  have h: "(8 :: uuid) \<notin> set (map Feed_id (feeds vacation_store))"
    by (simp add: vacation_store_def)
  show ?thesis using h upload_image_unknown_feed [OF h] by simp
qed

subsection \<open>Retrieval of a feed\<close>

lemma find_first:
  "find P xs = Some x \<Longrightarrow> \<exists>ys zs. xs = ys @ x # zs \<and> P x \<and> (\<forall>y\<in>set ys. \<not> P y)"
proof (induction xs)
  case Nil
  then show ?case by simp
next
  case (Cons a xs)
  show ?case
  proof (cases "P a")
    case True
    with Cons.prems have "a = x" by simp
    with True have "a # xs = [] @ x # xs \<and> P x \<and> (\<forall>y\<in>set []. \<not> P y)" by simp
    then show ?thesis by blast
  next
    case False
    with Cons.prems have "find P xs = Some x" by simp
    from Cons.IH [OF this] obtain ys zs where
      "xs = ys @ x # zs" "P x" "\<forall>y\<in>set ys. \<not> P y"
      by blast
    with False have "a # xs = (a # ys) @ x # zs \<and> P x \<and> (\<forall>y\<in>set (a # ys). \<not> P y)"
      by simp
    then show ?thesis by blast
  qed
qed

text \<open>
  Claim C3. When the table has a feed with the identifier of the request, \<^verbatim>\<open>get_feed\<close>
  returns the representation of the first such row: the identifier of the request with
  the name, the description and the creation time that the row holds. It raises the 404
  error exactly when the table has no such row, and it raises nothing else.
\<close>

theorem get_feed_found_or_404:
  "(feed_id \<in> set (map Feed_id (feeds w)) \<longrightarrow>
      (\<exists>before feed after. feeds w = before @ feed # after \<and>
         feed_id \<notin> set (map Feed_id before) \<and> Feed_id feed = feed_id \<and>
         get_feed feed_id w =
           Inr \<lparr>FeedResponse_id = feed_id, FeedResponse_name = Feed_name feed,
                FeedResponse_description = Feed_description feed,
                FeedResponse_created_at = Feed_created_at feed\<rparr>)) \<and>
   (get_feed feed_id w = Inl (HTTPException 404 ''Feed not found'') \<longleftrightarrow>
      feed_id \<notin> set (map Feed_id (feeds w))) \<and>
   (isl (get_feed feed_id w) \<longleftrightarrow> feed_id \<notin> set (map Feed_id (feeds w)))"
proof (cases "query_feed feed_id w")
  case None
  then have "feed_id \<notin> set (map Feed_id (feeds w))" using query_feed_None by blast
  with None show ?thesis by (simp add: get_feed_def)
next
  case (Some feed)
  then have "find (\<lambda>f. Feed_id f = feed_id) (feeds w) = Some feed"
    by (simp only: query_feed_def)
  from find_first [OF this] obtain before after where
    sp: "feeds w = before @ feed # after" and id: "Feed_id feed = feed_id"
    and nb: "\<forall>y\<in>set before. Feed_id y \<noteq> feed_id"
    by blast
  from nb have nb': "feed_id \<notin> set (map Feed_id before)" by auto
  from sp id have ex: "feed_id \<in> set (map Feed_id (feeds w))" by auto
  have g: "get_feed feed_id w =
           Inr \<lparr>FeedResponse_id = feed_id, FeedResponse_name = Feed_name feed,
                FeedResponse_description = Feed_description feed,
                FeedResponse_created_at = Feed_created_at feed\<rparr>"
    using Some id by (simp add: get_feed_def to_FeedResponse_def)
  from sp nb' id g have "\<exists>before feed after. feeds w = before @ feed # after \<and>
         feed_id \<notin> set (map Feed_id before) \<and> Feed_id feed = feed_id \<and>
         get_feed feed_id w =
           Inr \<lparr>FeedResponse_id = feed_id, FeedResponse_name = Feed_name feed,
                FeedResponse_description = Feed_description feed,
                FeedResponse_created_at = Feed_created_at feed\<rparr>"
    by blast
  with ex g show ?thesis by simp
qed

theorem get_feed_found_or_404_witness:
  "get_feed 8 alps_store =
     Inr \<lparr>FeedResponse_id = 8, FeedResponse_name = ''Alps'',
          FeedResponse_description = Some ''2024'', FeedResponse_created_at = 250\<rparr> \<and>
   get_feed 7 alps_store =
     Inr \<lparr>FeedResponse_id = 7, FeedResponse_name = ''Vacation'',
          FeedResponse_description = None, FeedResponse_created_at = 100\<rparr> \<and>
   get_feed 9 alps_store = Inl (HTTPException 404 ''Feed not found'')"
proof -
  define f7 where "f7 = \<lparr>Feed_id = 7, Feed_name = ''Vacation'', Feed_description = None,
      Feed_created_at = 100\<rparr>"
  define f8 where "f8 = \<lparr>Feed_id = 8, Feed_name = ''Alps'', Feed_description = Some ''2024'',
      Feed_created_at = 250\<rparr>"
  have fs: "feeds alps_store = [f7, f8]"
    by (simp add: alps_store_def cat_store_def vacation_store_def f7_def f8_def)
  have ids: "Feed_id f7 = 7" "Feed_id f8 = 8" by (simp_all add: f7_def f8_def)
  have found: "get_feed k alps_store =
      Inr \<lparr>FeedResponse_id = k, FeedResponse_name = Feed_name f,
           FeedResponse_description = Feed_description f,
           FeedResponse_created_at = Feed_created_at f\<rparr>"
    if k: "k \<in> set (map Feed_id (feeds alps_store))"
      and other: "\<And>g. g \<in> {f7, f8} \<Longrightarrow> Feed_id g = k \<Longrightarrow> g = f" for k f
  proof -
    from k get_feed_found_or_404 [of k alps_store]
    obtain before feed after where
      sp: "feeds alps_store = before @ feed # after" and id: "Feed_id feed = k"
      and g: "get_feed k alps_store =
           Inr \<lparr>FeedResponse_id = k, FeedResponse_name = Feed_name feed,
                FeedResponse_description = Feed_description feed,
                FeedResponse_created_at = Feed_created_at feed\<rparr>"
      by blast
    from sp have "feed \<in> set (feeds alps_store)" by simp
    then have "feed \<in> {f7, f8}" by (simp add: fs)
    from other [OF this id] g show ?thesis by simp
  qed
  have "get_feed 8 alps_store =
      Inr \<lparr>FeedResponse_id = 8, FeedResponse_name = Feed_name f8,
           FeedResponse_description = Feed_description f8,
           FeedResponse_created_at = Feed_created_at f8\<rparr>"
    by (rule found) (auto simp: fs ids)
  moreover have "get_feed 7 alps_store =
      Inr \<lparr>FeedResponse_id = 7, FeedResponse_name = Feed_name f7,
           FeedResponse_description = Feed_description f7,
           FeedResponse_created_at = Feed_created_at f7\<rparr>"
    by (rule found) (auto simp: fs ids)
  moreover have "(9 :: uuid) \<notin> set (map Feed_id (feeds alps_store))"
    by (simp add: fs ids)
  with get_feed_found_or_404 [of 9 alps_store]
  have "get_feed 9 alps_store = Inl (HTTPException 404 ''Feed not found'')"
    by blast
  ultimately show ?thesis by (simp add: f7_def f8_def)
qed

subsection \<open>Creation of a feed\<close>

lemma create_feed_Inr:
  "create_feed feed new_id now w = (Inr r, w') \<longleftrightarrow>
     storable (FeedCreate_name feed) \<and> storable_opt (FeedCreate_description feed) \<and>
     new_id \<notin> set (map Feed_id (feeds w)) \<and>
     r = \<lparr>FeedResponse_id = new_id, FeedResponse_name = FeedCreate_name feed,
          FeedResponse_description = FeedCreate_description feed,
          FeedResponse_created_at = now\<rparr> \<and>
     w' = w\<lparr>feeds := feeds w @
            [\<lparr>Feed_id = new_id, Feed_name = FeedCreate_name feed,
              Feed_description = FeedCreate_description feed, Feed_created_at = now\<rparr>]\<rparr>"
  by (auto simp: create_feed_def Let_def to_FeedResponse_def)

lemma find_app:
  "find P (xs @ ys) = (case find P xs of None \<Rightarrow> find P ys | Some x \<Rightarrow> Some x)"
  by (induction xs) simp_all

lemma get_feed_last:
  assumes "new_id \<notin> set (map Feed_id (feeds w))" and "Feed_id f = new_id"
  shows "get_feed new_id (w\<lparr>feeds := feeds w @ [f]\<rparr>) = Inr (to_FeedResponse f)"
proof -
  from assms(1) have "find (\<lambda>g. Feed_id g = new_id) (feeds w) = None"
    by (auto simp: find_None_iff)
  with assms(2) show ?thesis
    by (simp add: get_feed_def query_feed_def find_app)
qed

text \<open>
  Claim C7. A feed that was created is retrieved at once by the identifier that the
  creation returned: \<^verbatim>\<open>get_feed\<close> gives the very representation that
  \<^verbatim>\<open>create_feed\<close> gave, with the name and the description of the request unchanged.
\<close>

theorem create_then_get_feed:
  assumes "create_feed feed new_id now w = (Inr r, w')"
  shows "get_feed (FeedResponse_id r) w' = Inr r \<and>
         FeedResponse_name r = FeedCreate_name feed \<and>
         FeedResponse_description r = FeedCreate_description feed"
proof -
  from assms have fresh: "new_id \<notin> set (map Feed_id (feeds w))"
    and r: "r = \<lparr>FeedResponse_id = new_id, FeedResponse_name = FeedCreate_name feed,
          FeedResponse_description = FeedCreate_description feed,
          FeedResponse_created_at = now\<rparr>"
    and w': "w' = w\<lparr>feeds := feeds w @
            [\<lparr>Feed_id = new_id, Feed_name = FeedCreate_name feed,
              Feed_description = FeedCreate_description feed, Feed_created_at = now\<rparr>]\<rparr>"
    by (simp_all add: create_feed_Inr)
  have "get_feed (FeedResponse_id r) w' = Inr r"
    unfolding w' using get_feed_last [OF fresh, of "\<lparr>Feed_id = new_id, Feed_name = FeedCreate_name feed,
              Feed_description = FeedCreate_description feed, Feed_created_at = now\<rparr>"]
    by (simp add: r to_FeedResponse_def)
  then show ?thesis by (simp add: r)
qed

theorem create_then_get_feed_witness:
  "create_feed \<lparr>FeedCreate_name = ''Alps'', FeedCreate_description = Some ''2024''\<rparr>
       8 250 cat_store =
     (Inr \<lparr>FeedResponse_id = 8, FeedResponse_name = ''Alps'',
           FeedResponse_description = Some ''2024'', FeedResponse_created_at = 250\<rparr>,
      alps_store) \<and>
   get_feed 8 alps_store =
     Inr \<lparr>FeedResponse_id = 8, FeedResponse_name = ''Alps'',
          FeedResponse_description = Some ''2024'', FeedResponse_created_at = 250\<rparr>"
proof -
  have ok: "create_feed \<lparr>FeedCreate_name = ''Alps'', FeedCreate_description = Some ''2024''\<rparr>
       8 250 cat_store =
     (Inr \<lparr>FeedResponse_id = 8, FeedResponse_name = ''Alps'',
           FeedResponse_description = Some ''2024'', FeedResponse_created_at = 250\<rparr>,
      alps_store)"
    by (simp add: create_feed_Inr storable_def storable_opt_def alps_store_def cat_store_def
        vacation_store_def)
  from create_then_get_feed [OF ok] ok show ?thesis by simp
qed



subsection \<open>The name of a feed\<close>




subsection \<open>Uploads\<close>

lemma open_wb_plain:
  assumes "fs (cur @ [''uploads'']) = Some Dir" "fs (cur @ [''uploads'', uuid_str u]) = Some Dir"
    and "CHR ''/'' \<notin> set name" "name \<noteq> []" "name \<noteq> ''.''" "name \<noteq> ''..''"
    and "CHR 0x00 \<notin> set name" "length name \<le> NAME_MAX"
    and "fs (cur @ [''uploads'', uuid_str u, name]) \<noteq> Some Dir"
  shows "open_wb (file_path u name) data cur fs =
           Inr (fs(cur @ [''uploads'', uuid_str u, name] \<mapsto> File data))"
proof -
  have c: "components (file_path u name) = [''uploads'', uuid_str u, name]"
    using assms(3,4) by (simp add: components_file_path components_plain)
  from assms(3,4) have l: "last name \<noteq> CHR ''/''" by (metis last_in_set)
  have cr: "creatable (file_path u name)"
    unfolding creatable_def c using assms(4-8) l
    by (simp add: nul_file_path file_path_not_Nil length_file_path trailing_slash_file_path
        PATH_MAX_def NAME_MAX_def)
  have w: "walk fs cur [''uploads'', uuid_str u] = Inr (cur @ [''uploads'', uuid_str u])"
    using assms(1,2) by (simp only: walk_upload_dir)
  show ?thesis
    unfolding open_wb_Inr_iff using cr w assms(9) by (simp add: c start_dir_file_path)
qed

lemma open_wb_parent:
  assumes "fs (cur @ [''uploads'']) = Some Dir" "fs (cur @ [''uploads'', uuid_str u]) = Some Dir"
    and "fs (cur @ [''uploads'', ''evil.png'']) \<noteq> Some Dir"
  shows "open_wb (file_path u ''../evil.png'') data cur fs =
           Inr (fs(cur @ [''uploads'', ''evil.png''] \<mapsto> File data))"
proof -
  have s: "components ''../evil.png'' = [''..'', ''evil.png'']"
    by (simp add: components_def)
  have c: "components (file_path u ''../evil.png'') =
      [''uploads'', uuid_str u, ''..'', ''evil.png'']"
    by (simp add: components_file_path s)
  have cr: "creatable (file_path u ''../evil.png'')"
    unfolding creatable_def c
    by (simp add: nul_file_path file_path_not_Nil length_file_path trailing_slash_file_path
        PATH_MAX_def NAME_MAX_def)
  have w0: "walk fs cur [''uploads'', uuid_str u] = Inr (cur @ [''uploads'', uuid_str u])"
    using assms(1,2) by (simp only: walk_upload_dir)
  have "walk fs cur ([''uploads'', uuid_str u] @ [''..'']) = Inr (cur @ [''uploads''])"
    unfolding walk_append w0 using assms(1)
    by (simp add: enter_def butlast_append NAME_MAX_def)
  then have w: "walk fs cur [''uploads'', uuid_str u, ''..''] = Inr (cur @ [''uploads''])"
    by simp
  show ?thesis
    unfolding open_wb_Inr_iff using cr w assms(3) by (simp add: c start_dir_file_path)
qed

lemma upload_image_plain:
  assumes "query_feed feed_id w = Some feed"
    and "new_id \<notin> set (map Image_id (images w))"
    and "storage_ready w feed_id"
    and "CHR ''/'' \<notin> set name" "name \<noteq> []" "name \<noteq> ''.''" "name \<noteq> ''..''"
    and "CHR 0x00 \<notin> set name" "length name \<le> NAME_MAX"
    and "files w (cwd w @ [''uploads'', uuid_str feed_id, name]) \<noteq> Some Dir"
  shows "upload_image feed_id \<lparr>filename = name, content = data\<rparr> new_id now w =
    (Inr [(''message'', ''Image uploaded successfully''), (''image_id'', uuid_str new_id)],
     w\<lparr>files := (files w)
          (cwd w @ [''uploads''] \<mapsto> Dir, cwd w @ [''uploads'', uuid_str feed_id] \<mapsto> Dir,
           cwd w @ [''uploads'', uuid_str feed_id, name] \<mapsto> File data),
       images := images w @
         [\<lparr>Image_id = new_id, Image_feed_id = feed_id, Image_filename = name,
           Image_path = file_path feed_id name, Image_created_at = now\<rparr>]\<rparr>)"
proof -
  define fs1 where
    "fs1 = (files w)(cwd w @ [''uploads''] \<mapsto> Dir, cwd w @ [''uploads'', uuid_str feed_id] \<mapsto> Dir)"
  have m: "makedirs (upload_dir feed_id) (cwd w) (files w) = (None, fs1)"
    unfolding fs1_def using assms(3) by (intro makedirs_ready) (simp_all add: storage_ready_def)
  have "open_wb (file_path feed_id name) data (cwd w) fs1 =
      Inr (fs1(cwd w @ [''uploads'', uuid_str feed_id, name] \<mapsto> File data))"
    using assms(4-10) by (intro open_wb_plain) (simp_all add: fs1_def)
  with m assms(1,2,8) show ?thesis
    by (simp add: upload_image_def Let_def fs1_def storable_def nul_file_path)
qed

lemma upload_image_parent:
  assumes "query_feed feed_id w = Some feed"
    and "new_id \<notin> set (map Image_id (images w))"
    and "storage_ready w feed_id"
    and "files w (cwd w @ [''uploads'', ''evil.png'']) \<noteq> Some Dir"
  shows "upload_image feed_id \<lparr>filename = ''../evil.png'', content = data\<rparr> new_id now w =
    (Inr [(''message'', ''Image uploaded successfully''), (''image_id'', uuid_str new_id)],
     w\<lparr>files := (files w)
          (cwd w @ [''uploads''] \<mapsto> Dir, cwd w @ [''uploads'', uuid_str feed_id] \<mapsto> Dir,
           cwd w @ [''uploads'', ''evil.png''] \<mapsto> File data),
       images := images w @
         [\<lparr>Image_id = new_id, Image_feed_id = feed_id, Image_filename = ''../evil.png'',
           Image_path = file_path feed_id ''../evil.png'', Image_created_at = now\<rparr>]\<rparr>)"
proof -
  define fs1 where
    "fs1 = (files w)(cwd w @ [''uploads''] \<mapsto> Dir, cwd w @ [''uploads'', uuid_str feed_id] \<mapsto> Dir)"
  have m: "makedirs (upload_dir feed_id) (cwd w) (files w) = (None, fs1)"
    unfolding fs1_def using assms(3) by (intro makedirs_ready) (simp_all add: storage_ready_def)
  have ne: "uuid_str feed_id \<noteq> ''evil.png''"
    using length_uuid_str [of feed_id] by auto
  have "open_wb (file_path feed_id ''../evil.png'') data (cwd w) fs1 =
      Inr (fs1(cwd w @ [''uploads'', ''evil.png''] \<mapsto> File data))"
    using assms(4) ne by (intro open_wb_parent) (simp_all add: fs1_def)
  with m assms(1,2) show ?thesis
    by (simp add: upload_image_def Let_def fs1_def storable_def nul_file_path)
qed

lemma uuid_str_7: "uuid_str 7 = ''00000000-0000-0000-0000-000000000007''"
proof -
  have "hex_pad 32 7 = ''00000000000000000000000000000007''" by code_simp
  then show ?thesis by (simp add: uuid_str_def)
qed

lemma uuid_str_9: "uuid_str 9 = ''00000000-0000-0000-0000-000000000009''"
proof -
  have "hex_pad 32 9 = ''00000000000000000000000000000009''" by code_simp
  then show ?thesis by (simp add: uuid_str_def)
qed

lemma uuid_str_8: "uuid_str 8 = ''00000000-0000-0000-0000-000000000008''"
proof -
  have "hex_pad 32 8 = ''00000000000000000000000000000008''" by code_simp
  then show ?thesis by (simp add: uuid_str_def)
qed

lemma uuid_str_10: "uuid_str 10 = ''00000000-0000-0000-0000-00000000000a''"
proof -
  have "hex_pad 32 10 = ''0000000000000000000000000000000a''" by code_simp
  then show ?thesis by (simp add: uuid_str_def)
qed

lemma vacation_store_ready: "storage_ready vacation_store 7"
  by (simp add: storage_ready_def vacation_store_def example_fs_def)

lemma query_feed_vacation_store:
  "query_feed 7 vacation_store =
     Some \<lparr>Feed_id = 7, Feed_name = ''Vacation'', Feed_description = None, Feed_created_at = 100\<rparr>"
  by (simp add: query_feed_def vacation_store_def)

lemma cat_store_upload:
  "upload_image 7 \<lparr>filename = ''cat.png'', content = [1, 2, 3]\<rparr> 9 200 vacation_store =
     (Inr [(''message'', ''Image uploaded successfully''),
           (''image_id'', ''00000000-0000-0000-0000-000000000009'')], cat_store)"
proof -
  have "files vacation_store (cwd vacation_store @ [''uploads'', uuid_str 7, ''cat.png'']) \<noteq> Some Dir"
    by (simp add: vacation_store_def example_fs_def)
  moreover have "(9 :: uuid) \<notin> set (map Image_id (images vacation_store))"
    by (simp add: vacation_store_def)
  ultimately have "upload_image 7 \<lparr>filename = ''cat.png'', content = [1, 2, 3]\<rparr> 9 200 vacation_store =
    (Inr [(''message'', ''Image uploaded successfully''), (''image_id'', uuid_str 9)],
     vacation_store\<lparr>files := (files vacation_store)
          (cwd vacation_store @ [''uploads''] \<mapsto> Dir,
           cwd vacation_store @ [''uploads'', uuid_str 7] \<mapsto> Dir,
           cwd vacation_store @ [''uploads'', uuid_str 7, ''cat.png''] \<mapsto> File [1, 2, 3]),
       images := images vacation_store @
         [\<lparr>Image_id = 9, Image_feed_id = 7, Image_filename = ''cat.png'',
           Image_path = file_path 7 ''cat.png'', Image_created_at = 200\<rparr>]\<rparr>)"
    using query_feed_vacation_store vacation_store_ready
    by (intro upload_image_plain) (simp_all add: NAME_MAX_def)
  also have "vacation_store\<lparr>files := (files vacation_store)
          (cwd vacation_store @ [''uploads''] \<mapsto> Dir,
           cwd vacation_store @ [''uploads'', uuid_str 7] \<mapsto> Dir,
           cwd vacation_store @ [''uploads'', uuid_str 7, ''cat.png''] \<mapsto> File [1, 2, 3]),
       images := images vacation_store @
         [\<lparr>Image_id = 9, Image_feed_id = 7, Image_filename = ''cat.png'',
           Image_path = file_path 7 ''cat.png'', Image_created_at = 200\<rparr>]\<rparr> = cat_store"
    by (simp add: cat_store_def uuid_str_7 file_path_def upload_dir_def vacation_store_def)
  finally show ?thesis by (simp only: uuid_str_9)
qed

lemma cat_store_reachable:
  "run [PostFeeds (Text ''Vacation'') Missing 7 90 10,
        PostImages 7 \<lparr>filename = ''cat.png'', content = [1, 2, 3]\<rparr> 9 190 10] empty_store = cat_store"
proof -
  have "run [PostFeeds (Text ''Vacation'') Missing 7 90 10,
        PostImages 7 \<lparr>filename = ''cat.png'', content = [1, 2, 3]\<rparr> 9 190 10] empty_store =
      run [PostImages 7 \<lparr>filename = ''cat.png'', content = [1, 2, 3]\<rparr> 9 190 10] vacation_store"
    using run_append [of "[PostFeeds (Text ''Vacation'') Missing 7 90 10]"
        "[PostImages 7 \<lparr>filename = ''cat.png'', content = [1, 2, 3]\<rparr> 9 190 10]" empty_store]
    by (simp only: vacation_store_reachable append_Cons append_Nil)
  also have "\<dots> = cat_store" by (simp add: cat_store_upload utcnow_def)
  finally show ?thesis .
qed

lemma alps_store_reachable:
  "run [PostFeeds (Text ''Vacation'') Missing 7 90 10,
        PostImages 7 \<lparr>filename = ''cat.png'', content = [1, 2, 3]\<rparr> 9 190 10,
        PostFeeds (Text ''Alps'') (Text ''2024'') 8 240 10] empty_store = alps_store"
proof -
  have "run ([PostFeeds (Text ''Vacation'') Missing 7 90 10,
        PostImages 7 \<lparr>filename = ''cat.png'', content = [1, 2, 3]\<rparr> 9 190 10] @
        [PostFeeds (Text ''Alps'') (Text ''2024'') 8 240 10]) empty_store =
      run [PostFeeds (Text ''Alps'') (Text ''2024'') 8 240 10] cat_store"
    by (simp only: run_append cat_store_reachable)
  also have "\<dots> = alps_store"
    by (simp add: validate_FeedCreate_def create_feed_def to_FeedResponse_def utcnow_def
        storable_def storable_opt_def alps_store_def cat_store_def vacation_store_def)
  finally show ?thesis by simp
qed

lemma list_images_append:
  "list_images feed_id (w\<lparr>files := fs, images := images w @ imgs\<rparr>) =
     list_images feed_id w @
     map (\<lambda>img. [(''id'', uuid_str (Image_id img)), (''filename'', Image_filename img)])
       (filter (\<lambda>img. Image_feed_id img = feed_id) imgs)"
  by (simp add: list_images_def)

text \<open>
  Claim C5. For a feed that exists and to which no row of the table of images refers,
  every upload of a file named \<^verbatim>\<open>cat.png\<close> that returns gives the payload with the
  success message and the text of the new identifier, and the listing of the feed is
  then the one entry with that identifier and the filename \<^verbatim>\<open>cat.png\<close>, each entry having
  the two keys \<^verbatim>\<open>id\<close> and \<^verbatim>\<open>filename\<close> only, whatever images the other feeds hold. The
  upload returns whenever the storage is ready, the name \<^verbatim>\<open>cat.png\<close> in the directory
  of the feed is not a directory, and the generated identifier is not yet a key of the
  table.
\<close>

theorem upload_cat_png_then_list:
  assumes "feed_id \<in> set (map Feed_id (feeds w))"
    and "\<forall>img\<in>set (images w). Image_feed_id img \<noteq> feed_id"
  shows
  "(new_id \<notin> set (map Image_id (images w)) \<and> storage_ready w feed_id \<and>
    files w (cwd w @ [''uploads'', uuid_str feed_id, ''cat.png'']) \<noteq> Some Dir \<longrightarrow>
      (\<exists>r w'. upload_image feed_id \<lparr>filename = ''cat.png'', content = data\<rparr> new_id now w =
         (Inr r, w'))) \<and>
   (\<forall>r w'. upload_image feed_id \<lparr>filename = ''cat.png'', content = data\<rparr> new_id now w =
        (Inr r, w') \<longrightarrow>
      r = [(''message'', ''Image uploaded successfully''), (''image_id'', uuid_str new_id)] \<and>
      list_images feed_id w' = [[(''id'', uuid_str new_id), (''filename'', ''cat.png'')]])"
proof (intro conjI allI impI)
  assume a: "new_id \<notin> set (map Image_id (images w)) \<and> storage_ready w feed_id \<and>
    files w (cwd w @ [''uploads'', uuid_str feed_id, ''cat.png'']) \<noteq> Some Dir"
  from assms(1) obtain feed where q: "query_feed feed_id w = Some feed"
    using query_feed_None [of feed_id w] by auto
  have "upload_image feed_id \<lparr>filename = ''cat.png'', content = data\<rparr> new_id now w =
    (Inr [(''message'', ''Image uploaded successfully''), (''image_id'', uuid_str new_id)],
     w\<lparr>files := (files w)
          (cwd w @ [''uploads''] \<mapsto> Dir, cwd w @ [''uploads'', uuid_str feed_id] \<mapsto> Dir,
           cwd w @ [''uploads'', uuid_str feed_id, ''cat.png''] \<mapsto> File data),
       images := images w @
         [\<lparr>Image_id = new_id, Image_feed_id = feed_id, Image_filename = ''cat.png'',
           Image_path = file_path feed_id ''cat.png'', Image_created_at = now\<rparr>]\<rparr>)"
    using q a by (intro upload_image_plain) (simp_all add: NAME_MAX_def)
  then show "\<exists>r w'. upload_image feed_id \<lparr>filename = ''cat.png'', content = data\<rparr> new_id now w =
         (Inr r, w')"
    by blast
next
  fix r w'
  assume "upload_image feed_id \<lparr>filename = ''cat.png'', content = data\<rparr> new_id now w = (Inr r, w')"
  then obtain fs2 where
    r: "r = [(''message'', ''Image uploaded successfully''), (''image_id'', uuid_str new_id)]"
    and w': "w' = w\<lparr>files := fs2,
                 images := images w @
                   [\<lparr>Image_id = new_id, Image_feed_id = feed_id,
                     Image_filename = filename \<lparr>filename = ''cat.png'', content = data\<rparr>,
                     Image_path = file_path feed_id
                       (filename \<lparr>filename = ''cat.png'', content = data\<rparr>),
                     Image_created_at = now\<rparr>]\<rparr>"
    by (rule upload_image_Inr)
  from assms(2) have e: "list_images feed_id w = []"
    by (auto simp: list_images_def filter_empty_conv)
  show "r = [(''message'', ''Image uploaded successfully''), (''image_id'', uuid_str new_id)]"
    by (rule r)
  show "list_images feed_id w' = [[(''id'', uuid_str new_id), (''filename'', ''cat.png'')]]"
    unfolding w' list_images_append e by simp
qed

theorem upload_cat_png_then_list_witness:
  "images alps_store =
     [\<lparr>Image_id = 9, Image_feed_id = 7, Image_filename = ''cat.png'',
       Image_path = ''uploads/00000000-0000-0000-0000-000000000007/cat.png'',
       Image_created_at = 200\<rparr>] \<and>
   (\<exists>w'. upload_image 8 \<lparr>filename = ''cat.png'', content = [4, 5]\<rparr> 10 300 alps_store =
       (Inr [(''message'', ''Image uploaded successfully''),
             (''image_id'', ''00000000-0000-0000-0000-00000000000a'')], w') \<and>
      list_images 8 w' =
        [[(''id'', ''00000000-0000-0000-0000-00000000000a''), (''filename'', ''cat.png'')]])"
proof -
  have i: "images alps_store =
     [\<lparr>Image_id = 9, Image_feed_id = 7, Image_filename = ''cat.png'',
       Image_path = ''uploads/00000000-0000-0000-0000-000000000007/cat.png'',
       Image_created_at = 200\<rparr>]"
    by (simp add: alps_store_def cat_store_def)
  have a: "(8 :: uuid) \<in> set (map Feed_id (feeds alps_store))"
    by (simp add: alps_store_def)
  have b: "\<forall>img\<in>set (images alps_store). Image_feed_id img \<noteq> 8"
    by (simp add: i)
  have c: "(10 :: uuid) \<notin> set (map Image_id (images alps_store)) \<and> storage_ready alps_store 8 \<and>
      files alps_store (cwd alps_store @ [''uploads'', uuid_str 8, ''cat.png'']) \<noteq> Some Dir"
    by (simp add: i storage_ready_def alps_store_def cat_store_def vacation_store_def
        example_fs_def uuid_str_8)
  from upload_cat_png_then_list [OF a b, of 10 "[4, 5]" 300] c
  obtain r w' where
    up: "upload_image 8 \<lparr>filename = ''cat.png'', content = [4, 5]\<rparr> 10 300 alps_store = (Inr r, w')"
    by blast
  with upload_cat_png_then_list [OF a b, of 10 "[4, 5]" 300]
  have "r = [(''message'', ''Image uploaded successfully''), (''image_id'', uuid_str 10)] \<and>
      list_images 8 w' = [[(''id'', uuid_str 10), (''filename'', ''cat.png'')]]"
    by blast
  with up i show ?thesis by (simp add: uuid_str_10)
qed

text \<open>
  Claim C2. When an upload to a feed has returned, a second upload to that feed with
  the same filename returns too (whenever its generated identifier is not yet a key of
  the table): it writes to the same path, \<^verbatim>\<open>uploads/{feed_id}/{filename}\<close>, so that the
  content of the second file is what is read at that path, while the table has gained
  two rows with different identifiers and the listing of the feed two entries.
\<close>

theorem upload_same_filename_twice:
  assumes "upload_image feed_id \<lparr>filename = name, content = data1\<rparr> id1 t1 w = (Inr r1, w1)"
    and "id2 \<notin> set (map Image_id (images w1))"
  shows "\<exists>r2 w2.
     upload_image feed_id \<lparr>filename = name, content = data2\<rparr> id2 t2 w1 = (Inr r2, w2) \<and>
     file_path feed_id name = ''uploads/'' @ uuid_str feed_id @ ''/'' @ name \<and>
     read_file (file_path feed_id name) (cwd w2) (files w2) = Inr data2 \<and>
     images w2 = images w @
       [\<lparr>Image_id = id1, Image_feed_id = feed_id, Image_filename = name,
         Image_path = file_path feed_id name, Image_created_at = t1\<rparr>,
        \<lparr>Image_id = id2, Image_feed_id = feed_id, Image_filename = name,
         Image_path = file_path feed_id name, Image_created_at = t2\<rparr>] \<and>
     id1 \<noteq> id2 \<and>
     list_images feed_id w2 = list_images feed_id w @
       [[(''id'', uuid_str id1), (''filename'', name)],
        [(''id'', uuid_str id2), (''filename'', name)]] \<and>
     uuid_str id1 \<noteq> uuid_str id2"
proof -
  from assms(1) obtain feed fs1 fs2 where
    q: "query_feed feed_id w = Some feed"
    and o1: "open_wb (file_path feed_id name) data1 (cwd w) fs1 = Inr fs2"
    and st: "storable name" "storable (file_path feed_id name)"
    and w1: "w1 = w\<lparr>files := fs2,
                 images := images w @
                   [\<lparr>Image_id = id1, Image_feed_id = feed_id, Image_filename = name,
                     Image_path = file_path feed_id name, Image_created_at = t1\<rparr>]\<rparr>"
    by (rule upload_image_Inr) simp
  from assms(2) have ne: "id1 \<noteq> id2" by (auto simp: w1)
  have q1: "query_feed feed_id w1 = Some feed"
    using q by (simp add: query_feed_def w1)
  from open_wb_file_path_dirs [OF o1]
  have "fs2 (cwd w @ [''uploads'']) = Some Dir \<and> fs2 (cwd w @ [''uploads'', uuid_str feed_id]) = Some Dir"
    by (simp only: open_wb_dirs [OF o1])
  then have m: "makedirs (upload_dir feed_id) (cwd w1) (files w1) = (None, fs2)"
    by (simp add: w1 makedirs_present)
  from open_wb_again [OF o1] obtain fs3 where
    o2: "open_wb (file_path feed_id name) data2 (cwd w) fs2 = Inr fs3"
    by blast
  have up: "upload_image feed_id \<lparr>filename = name, content = data2\<rparr> id2 t2 w1 =
      (Inr [(''message'', ''Image uploaded successfully''), (''image_id'', uuid_str id2)],
       w1\<lparr>files := fs3,
          images := images w1 @
            [\<lparr>Image_id = id2, Image_feed_id = feed_id, Image_filename = name,
              Image_path = file_path feed_id name, Image_created_at = t2\<rparr>]\<rparr>)"
    using q1 m o2 st assms(2) by (simp add: upload_image_def Let_def w1)
  have rd: "read_file (file_path feed_id name) (cwd w) fs3 = Inr data2"
    by (rule open_wb_read_file [OF o2])
  have ls: "list_images feed_id (w1\<lparr>files := fs3,
          images := images w1 @
            [\<lparr>Image_id = id2, Image_feed_id = feed_id, Image_filename = name,
              Image_path = file_path feed_id name, Image_created_at = t2\<rparr>]\<rparr>) =
      list_images feed_id w @
       [[(''id'', uuid_str id1), (''filename'', name)],
        [(''id'', uuid_str id2), (''filename'', name)]]"
    by (simp add: list_images_def w1)
  from ne have "uuid_str id1 \<noteq> uuid_str id2" using uuid_str_inj by blast
  with up rd ls ne show ?thesis
    by (simp add: w1 file_path_def upload_dir_def)
qed


theorem upload_same_filename_twice_witness:
  "upload_image 7 \<lparr>filename = ''cat.png'', content = [1, 2, 3]\<rparr> 9 200 vacation_store =
     (Inr [(''message'', ''Image uploaded successfully''),
           (''image_id'', ''00000000-0000-0000-0000-000000000009'')], cat_store) \<and>
   (10 :: uuid) \<notin> set (map Image_id (images cat_store)) \<and>
   (\<exists>r2 w2.
      upload_image 7 \<lparr>filename = ''cat.png'', content = [4, 5]\<rparr> 10 300 cat_store = (Inr r2, w2) \<and>
      read_file ''uploads/00000000-0000-0000-0000-000000000007/cat.png'' (cwd w2) (files w2) =
        Inr [4, 5] \<and>
      list_images 7 w2 =
        [[(''id'', ''00000000-0000-0000-0000-000000000009''), (''filename'', ''cat.png'')],
         [(''id'', ''00000000-0000-0000-0000-00000000000a''), (''filename'', ''cat.png'')]])"
proof -
  have h: "(10 :: uuid) \<notin> set (map Image_id (images cat_store))"
    by (simp add: cat_store_def)
  have u10: "uuid_str 10 = ''00000000-0000-0000-0000-00000000000a''"
  proof -
    have "hex_pad 32 10 = ''0000000000000000000000000000000a''" by code_simp
    then show ?thesis by (simp add: uuid_str_def)
  qed
  have e: "list_images 7 vacation_store = []"
    by (simp add: list_images_def vacation_store_def)
  from upload_same_filename_twice [OF cat_store_upload h, of "[4, 5]" 300]
  obtain r2 w2 where
    "upload_image 7 \<lparr>filename = ''cat.png'', content = [4, 5]\<rparr> 10 300 cat_store = (Inr r2, w2)"
    "file_path 7 ''cat.png'' = ''uploads/'' @ uuid_str 7 @ ''/'' @ ''cat.png''"
    "read_file (file_path 7 ''cat.png'') (cwd w2) (files w2) = Inr [4, 5]"
    "list_images 7 w2 = list_images 7 vacation_store @
       [[(''id'', uuid_str 9), (''filename'', ''cat.png'')],
        [(''id'', uuid_str 10), (''filename'', ''cat.png'')]]"
    by blast
  then have "upload_image 7 \<lparr>filename = ''cat.png'', content = [4, 5]\<rparr> 10 300 cat_store = (Inr r2, w2) \<and>
      read_file ''uploads/00000000-0000-0000-0000-000000000007/cat.png'' (cwd w2) (files w2) =
        Inr [4, 5] \<and>
      list_images 7 w2 =
        [[(''id'', ''00000000-0000-0000-0000-000000000009''), (''filename'', ''cat.png'')],
         [(''id'', ''00000000-0000-0000-0000-00000000000a''), (''filename'', ''cat.png'')]]"
    by (simp add: uuid_str_7 uuid_str_9 u10 e)
  with h cat_store_upload show ?thesis by blast
qed

text \<open>
  Claim C10. Every upload that returns has recorded, in the new \<^verbatim>\<open>Image\<close> row, the path
  \<^verbatim>\<open>"uploads/" + str(feed_id) + "/" + filename\<close> with the filename of the client as it
  came, and the content of the file is what is read at that path. The filename
  \<^verbatim>\<open>../evil.png\<close> has a separator and a \<^verbatim>\<open>..\<close> segment: its upload returns whenever the
  storage is ready, and it writes the file \<^verbatim>\<open>uploads/evil.png\<close>, which is not below the
  directory \<^verbatim>\<open>uploads/{feed_id}\<close> of the feed, while nothing below that directory
  changes.
\<close>

theorem upload_path_verbatim:
  "(\<forall>r w'. upload_image feed_id file new_id now w = (Inr r, w') \<longrightarrow>
      (\<exists>img. images w' = images w @ [img] \<and>
         Image_path img = ''uploads/'' @ uuid_str feed_id @ ''/'' @ filename file \<and>
         Image_filename img = filename file \<and>
         read_file (Image_path img) (cwd w') (files w') = Inr (content file))) \<and>
   (feed_id \<in> set (map Feed_id (feeds w)) \<and> new_id \<notin> set (map Image_id (images w)) \<and>
    storage_ready w feed_id \<and> files w (cwd w @ [''uploads'', ''evil.png'']) \<noteq> Some Dir \<longrightarrow>
      (\<exists>r w'. upload_image feed_id \<lparr>filename = ''../evil.png'', content = data\<rparr> new_id now w =
           (Inr r, w') \<and>
         files w' (cwd w @ [''uploads'', ''evil.png'']) = Some (File data) \<and>
         \<not> prefix (cwd w @ [''uploads'', uuid_str feed_id]) (cwd w @ [''uploads'', ''evil.png'']) \<and>
         (\<forall>p. strict_prefix (cwd w @ [''uploads'', uuid_str feed_id]) p \<longrightarrow>
              files w' p = files w p)))"
proof (intro conjI allI impI)
  fix r w'
  assume "upload_image feed_id file new_id now w = (Inr r, w')"
  then obtain fs1 fs2 where
    o: "open_wb (file_path feed_id (filename file)) (content file) (cwd w) fs1 = Inr fs2"
    and w': "w' = w\<lparr>files := fs2,
                 images := images w @
                   [\<lparr>Image_id = new_id, Image_feed_id = feed_id, Image_filename = filename file,
                     Image_path = file_path feed_id (filename file), Image_created_at = now\<rparr>]\<rparr>"
    by (rule upload_image_Inr)
  have "read_file (file_path feed_id (filename file)) (cwd w) fs2 = Inr (content file)"
    by (rule open_wb_read_file [OF o])
  then show "\<exists>img. images w' = images w @ [img] \<and>
         Image_path img = ''uploads/'' @ uuid_str feed_id @ ''/'' @ filename file \<and>
         Image_filename img = filename file \<and>
         read_file (Image_path img) (cwd w') (files w') = Inr (content file)"
    by (simp add: w' file_path_def upload_dir_def)
next
  assume a: "feed_id \<in> set (map Feed_id (feeds w)) \<and> new_id \<notin> set (map Image_id (images w)) \<and>
    storage_ready w feed_id \<and> files w (cwd w @ [''uploads'', ''evil.png'']) \<noteq> Some Dir"
  then obtain feed where q: "query_feed feed_id w = Some feed"
    using query_feed_None [of feed_id w] by auto
  have ne: "uuid_str feed_id \<noteq> ''evil.png''"
    using length_uuid_str [of feed_id] by auto
  have up: "upload_image feed_id \<lparr>filename = ''../evil.png'', content = data\<rparr> new_id now w =
    (Inr [(''message'', ''Image uploaded successfully''), (''image_id'', uuid_str new_id)],
     w\<lparr>files := (files w)
          (cwd w @ [''uploads''] \<mapsto> Dir, cwd w @ [''uploads'', uuid_str feed_id] \<mapsto> Dir,
           cwd w @ [''uploads'', ''evil.png''] \<mapsto> File data),
       images := images w @
         [\<lparr>Image_id = new_id, Image_feed_id = feed_id, Image_filename = ''../evil.png'',
           Image_path = file_path feed_id ''../evil.png'', Image_created_at = now\<rparr>]\<rparr>)"
    using q a by (intro upload_image_parent) simp_all
  have np: "\<not> prefix (cwd w @ [''uploads'', uuid_str feed_id]) (cwd w @ [''uploads'', ''evil.png''])"
    using ne by simp
  have fr: "((files w)
          (cwd w @ [''uploads''] \<mapsto> Dir, cwd w @ [''uploads'', uuid_str feed_id] \<mapsto> Dir,
           cwd w @ [''uploads'', ''evil.png''] \<mapsto> File data)) p = files w p"
    if "strict_prefix (cwd w @ [''uploads'', uuid_str feed_id]) p" for p
  proof -
    from that obtain zs where "p = (cwd w @ [''uploads'', uuid_str feed_id]) @ zs" "zs \<noteq> []"
      by (auto simp: strict_prefix_def prefix_def)
    then obtain x xs where p: "p = (cwd w @ [''uploads'', uuid_str feed_id]) @ x # xs"
      by (cases zs) auto
    show ?thesis using ne by (simp add: p)
  qed
  from up np fr
  show "\<exists>r w'. upload_image feed_id \<lparr>filename = ''../evil.png'', content = data\<rparr> new_id now w =
           (Inr r, w') \<and>
         files w' (cwd w @ [''uploads'', ''evil.png'']) = Some (File data) \<and>
         \<not> prefix (cwd w @ [''uploads'', uuid_str feed_id]) (cwd w @ [''uploads'', ''evil.png'']) \<and>
         (\<forall>p. strict_prefix (cwd w @ [''uploads'', uuid_str feed_id]) p \<longrightarrow>
              files w' p = files w p)"
    by simp
qed

theorem upload_path_verbatim_witness:
  "\<exists>r w'. upload_image 7 \<lparr>filename = ''../evil.png'', content = [6, 6, 6]\<rparr> 10 300 cat_store =
       (Inr r, w') \<and>
     files w' [''srv'', ''uploads'', ''evil.png''] = Some (File [6, 6, 6]) \<and>
     files w' [''srv'', ''uploads'', ''00000000-0000-0000-0000-000000000007'', ''cat.png''] =
       Some (File [1, 2, 3]) \<and>
     (\<exists>img. images w' = images cat_store @ [img] \<and>
        Image_path img = ''uploads/00000000-0000-0000-0000-000000000007/../evil.png'' \<and>
        read_file (Image_path img) (cwd w') (files w') = Inr [6, 6, 6])"
proof -
  have h: "(7 :: uuid) \<in> set (map Feed_id (feeds cat_store)) \<and>
      (10 :: uuid) \<notin> set (map Image_id (images cat_store)) \<and>
      storage_ready cat_store 7 \<and>
      files cat_store (cwd cat_store @ [''uploads'', ''evil.png'']) \<noteq> Some Dir"
    by (simp add: cat_store_def vacation_store_def example_fs_def storage_ready_def uuid_str_7)
  have c: "cwd cat_store = [''srv'']" by (simp add: cat_store_def vacation_store_def)
  have sp: "strict_prefix (cwd cat_store @ [''uploads'', uuid_str 7])
      [''srv'', ''uploads'', ''00000000-0000-0000-0000-000000000007'', ''cat.png'']"
    by (simp add: c uuid_str_7 strict_prefix_def)
  have old: "files cat_store
      [''srv'', ''uploads'', ''00000000-0000-0000-0000-000000000007'', ''cat.png''] =
      Some (File [1, 2, 3])"
    by (simp add: cat_store_def)
  from h upload_path_verbatim [of 7 _ 10 300 cat_store "[6, 6, 6]"]
  obtain r w' where
    up: "upload_image 7 \<lparr>filename = ''../evil.png'', content = [6, 6, 6]\<rparr> 10 300 cat_store =
       (Inr r, w')"
    and ev: "files w' (cwd cat_store @ [''uploads'', ''evil.png'']) = Some (File [6, 6, 6])"
    and fr: "\<forall>p. strict_prefix (cwd cat_store @ [''uploads'', uuid_str 7]) p \<longrightarrow>
        files w' p = files cat_store p"
    by blast
  from up upload_path_verbatim
    [of 7 "\<lparr>filename = ''../evil.png'', content = [6, 6, 6]\<rparr>" 10 300 cat_store]
  obtain img where "images w' = images cat_store @ [img]"
    "Image_path img = ''uploads/'' @ uuid_str 7 @ ''/'' @
       filename \<lparr>filename = ''../evil.png'', content = [6, 6, 6]\<rparr>"
    "read_file (Image_path img) (cwd w') (files w') =
       Inr (content \<lparr>filename = ''../evil.png'', content = [6, 6, 6]\<rparr>)"
    by blast
  then have "\<exists>img. images w' = images cat_store @ [img] \<and>
        Image_path img = ''uploads/00000000-0000-0000-0000-000000000007/../evil.png'' \<and>
        read_file (Image_path img) (cwd w') (files w') = Inr [6, 6, 6]"
    by (simp add: uuid_str_7)
  moreover from fr sp old have "files w'
      [''srv'', ''uploads'', ''00000000-0000-0000-0000-000000000007'', ''cat.png''] =
      Some (File [1, 2, 3])"
    by simp
  moreover from ev have "files w' [''srv'', ''uploads'', ''evil.png''] = Some (File [6, 6, 6])"
    by (simp add: c)
  ultimately show ?thesis using up by blast
qed

subsection \<open>The states of the store\<close>

lemma initial_images_have_feed:
  "\<forall>img\<in>set (images (initial fs0 cwd0)).
     Image_feed_id img \<in> set (map Feed_id (feeds (initial fs0 cwd0)))"
  by (simp add: initial_def)

text \<open>
  Claim C8. In every state that a sequence of requests leads to from the empty store,
  the feed reference of every \<^verbatim>\<open>Image\<close> row is the identifier of a \<^verbatim>\<open>Feed\<close> row. It was
  so when the image was uploaded, since \<^verbatim>\<open>upload_image\<close> adds a row only when the feed
  exists at that time, and it stays so, since the requests that follow only append rows
  to the two tables.
\<close>

theorem images_reference_feeds:
  "(\<forall>img\<in>set (images (run rs (initial fs0 cwd0))).
      Image_feed_id img \<in> set (map Feed_id (feeds (run rs (initial fs0 cwd0))))) \<and>
   (images (snd (upload_image feed_id file new_id now w)) = images w \<or>
    (feed_id \<in> set (map Feed_id (feeds w)) \<and>
     (\<exists>img. Image_feed_id img = feed_id \<and>
        images (snd (upload_image feed_id file new_id now w)) = images w @ [img]))) \<and>
   (\<exists>fs imgs. feeds (run rs' w) = feeds w @ fs \<and> images (run rs' w) = images w @ imgs)"
proof (intro conjI)
  show "\<forall>img\<in>set (images (run rs (initial fs0 cwd0))).
      Image_feed_id img \<in> set (map Feed_id (feeds (run rs (initial fs0 cwd0))))"
    by (rule run_images_have_feed [OF initial_images_have_feed])
  show "images (snd (upload_image feed_id file new_id now w)) = images w \<or>
    (feed_id \<in> set (map Feed_id (feeds w)) \<and>
     (\<exists>img. Image_feed_id img = feed_id \<and>
        images (snd (upload_image feed_id file new_id now w)) = images w @ [img]))"
    by (rule upload_image_images)
  show "\<exists>fs imgs. feeds (run rs' w) = feeds w @ fs \<and> images (run rs' w) = images w @ imgs"
    using run_feeds [of rs' w] run_images [of rs' w] by blast
qed

theorem images_reference_feeds_witness:
  "images (run [PostFeeds (Text ''Vacation'') Missing 7 90 10,
                PostImages 7 \<lparr>filename = ''cat.png'', content = [1, 2, 3]\<rparr> 9 190 10]
             (initial example_fs [''srv''])) =
     [\<lparr>Image_id = 9, Image_feed_id = 7, Image_filename = ''cat.png'',
       Image_path = ''uploads/00000000-0000-0000-0000-000000000007/cat.png'',
       Image_created_at = 200\<rparr>] \<and>
   (7 :: uuid) \<in> set (map Feed_id (feeds (run [PostFeeds (Text ''Vacation'') Missing 7 90 10,
                PostImages 7 \<lparr>filename = ''cat.png'', content = [1, 2, 3]\<rparr> 9 190 10]
             (initial example_fs [''srv'']))))"
proof -
  have r: "run [PostFeeds (Text ''Vacation'') Missing 7 90 10,
                PostImages 7 \<lparr>filename = ''cat.png'', content = [1, 2, 3]\<rparr> 9 190 10]
             (initial example_fs [''srv'']) = cat_store"
    using cat_store_reachable by (simp only: empty_store_def)
  have i: "images cat_store =
     [\<lparr>Image_id = 9, Image_feed_id = 7, Image_filename = ''cat.png'',
       Image_path = ''uploads/00000000-0000-0000-0000-000000000007/cat.png'',
       Image_created_at = 200\<rparr>]"
    by (simp add: cat_store_def)
  from images_reference_feeds [of "[PostFeeds (Text ''Vacation'') Missing 7 90 10,
                PostImages 7 \<lparr>filename = ''cat.png'', content = [1, 2, 3]\<rparr> 9 190 10]"
      example_fs "[''srv'']"]
  have "\<forall>img\<in>set (images cat_store). Image_feed_id img \<in> set (map Feed_id (feeds cat_store))"
    unfolding r by blast
  then have "(7 :: uuid) \<in> set (map Feed_id (feeds cat_store))"
    unfolding i by simp
  with i show ?thesis unfolding r by simp
qed

subsection \<open>Listing of images\<close>

text \<open>
  Claim C4. \<^verbatim>\<open>list_images\<close> does not look at the table of feeds and raises nothing. For
  an identifier that no feed of the store has, it returns the empty list: by the
  property above no image refers to it.
\<close>

theorem list_images_unknown_feed:
  assumes "feed_id \<notin> set (map Feed_id (feeds (run rs (initial fs0 cwd0))))"
  shows "handle (GetImages feed_id) (run rs (initial fs0 cwd0)) =
           (Inr (ImagesJSON []), run rs (initial fs0 cwd0)) \<and>
         list_images feed_id (w\<lparr>feeds := fs\<rparr>) = list_images feed_id w"
proof -
  have "\<forall>img\<in>set (images (run rs (initial fs0 cwd0))).
      Image_feed_id img \<in> set (map Feed_id (feeds (run rs (initial fs0 cwd0))))"
    by (rule run_images_have_feed [OF initial_images_have_feed])
  with assms have "filter (\<lambda>img. Image_feed_id img = feed_id)
      (images (run rs (initial fs0 cwd0))) = []"
    by (auto simp: filter_empty_conv)
  then show ?thesis by (simp add: list_images_def)
qed

theorem list_images_unknown_feed_witness:
  "(8 :: uuid) \<notin> set (map Feed_id (feeds (run [PostFeeds (Text ''Vacation'') Missing 7 90 10,
                PostImages 7 \<lparr>filename = ''cat.png'', content = [1, 2, 3]\<rparr> 9 190 10]
             (initial example_fs [''srv''])))) \<and>
   fst (handle (GetImages 8) (run [PostFeeds (Text ''Vacation'') Missing 7 90 10,
                PostImages 7 \<lparr>filename = ''cat.png'', content = [1, 2, 3]\<rparr> 9 190 10]
             (initial example_fs [''srv'']))) = Inr (ImagesJSON []) \<and>
   fst (handle (GetFeed 8) (run [PostFeeds (Text ''Vacation'') Missing 7 90 10,
                PostImages 7 \<lparr>filename = ''cat.png'', content = [1, 2, 3]\<rparr> 9 190 10]
             (initial example_fs [''srv'']))) = Inl (HTTPException 404 ''Feed not found'')"
proof -
  have r: "run [PostFeeds (Text ''Vacation'') Missing 7 90 10,
                PostImages 7 \<lparr>filename = ''cat.png'', content = [1, 2, 3]\<rparr> 9 190 10]
             (initial example_fs [''srv'']) = cat_store"
    using cat_store_reachable by (simp only: empty_store_def)
  have h: "(8 :: uuid) \<notin> set (map Feed_id (feeds (run [PostFeeds (Text ''Vacation'') Missing 7 90 10,
                PostImages 7 \<lparr>filename = ''cat.png'', content = [1, 2, 3]\<rparr> 9 190 10]
             (initial example_fs [''srv'']))))"
    unfolding r by (simp add: cat_store_def vacation_store_def)
  have g: "fst (handle (GetFeed 8) cat_store) = Inl (HTTPException 404 ''Feed not found'')"
    by (simp add: get_feed_def query_feed_def cat_store_def vacation_store_def)
  from list_images_unknown_feed [OF h] h g show ?thesis
    unfolding r by simp
qed

end
